theory Spec2Isabelle
  imports Complex_Main "HOL-Library.Sublist" "HOL-Library.List_Lexorder" "HOL-Library.Log_Nat"
begin

section \<open>JavaScript strings\<close>

text \<open>
  A JavaScript string is a sequence of UTF-16 code units. A code unit is modelled as a
  natural number (below 65536 in JavaScript; no function here depends on that bound), so
  that the comparison of \<^verbatim>\<open>Array.prototype.sort\<close>, the white space of
  \<^verbatim>\<open>String.prototype.trim\<close> and the characters beyond ASCII that the source file
  contains are all exact. \<open>ascii\<close> embeds an ASCII literal.
\<close>

type_synonym js_string = "nat list"

definition ascii :: "string \<Rightarrow> js_string" where
  "ascii s = map of_char s"

text \<open>
  White space as \<^verbatim>\<open>trim\<close> sees it: the WhiteSpace and LineTerminator productions of
  ECMAScript (TAB, LF, VT, FF, CR, SP, NBSP, the Unicode space separators, LS, PS, BOM).
\<close>

definition is_ws :: "nat \<Rightarrow> bool" where
  "is_ws c \<longleftrightarrow>
     (9 \<le> c \<and> c \<le> 13) \<or> c = 32 \<or> c = 160 \<or> c = 5760 \<or> (8192 \<le> c \<and> c \<le> 8202) \<or>
     c = 8232 \<or> c = 8233 \<or> c = 8239 \<or> c = 8287 \<or> c = 12288 \<or> c = 65279"

definition trim :: "js_string \<Rightarrow> js_string" where
  "trim s = rev (dropWhile is_ws (rev (dropWhile is_ws s)))"

text \<open>
  \<^verbatim>\<open>s.split(sep)\<close> for a string separator: the occurrences of \<open>sep\<close> are found from
  left to right, each search starting after the previous occurrence. \<open>cur\<close> is the piece
  read so far.
\<close>

function split_from :: "js_string \<Rightarrow> js_string \<Rightarrow> js_string \<Rightarrow> js_string list" where
  "split_from sep cur [] = [cur]"
| "split_from sep cur (c # cs) =
     (if sep \<noteq> [] \<and> prefix sep (c # cs)
      then cur # split_from sep [] (drop (length sep) (c # cs))
      else split_from sep (cur @ [c]) cs)"
  by pat_completeness auto
termination
  by (relation "measure (\<lambda>(sep, cur, s). length s)") auto

definition split :: "js_string \<Rightarrow> js_string \<Rightarrow> js_string list" where
  "split s sep = (if sep = [] then map (\<lambda>c. [c]) s else split_from sep [] s)"

text \<open>\<^verbatim>\<open>parts[i] || ''\<close>: an index out of range reads \<^verbatim>\<open>undefined\<close>, which is falsy.\<close>

definition part_or_empty :: "js_string list \<Rightarrow> nat \<Rightarrow> js_string" where
  "part_or_empty parts i = (if i < length parts \<and> parts ! i \<noteq> [] then parts ! i else [])"

section \<open>Field extractor\<close>

subsection \<open>extractMetadata\<close>

text \<open>
  The separator literal of the source file is the four code units SPACE, U+00C2, U+00B7,
  SPACE (in the file's UTF-8: \<^verbatim>\<open>20 C3 82 C2 B7 20\<close>), not SPACE, U+00B7, SPACE.
  An absent argument is \<open>None\<close>.
\<close>

definition metadata_separator :: js_string where
  "metadata_separator = [32, 194, 183, 32]"

definition extractMetadata :: "js_string option \<Rightarrow> js_string \<times> js_string \<times> js_string" where
  "extractMetadata metadataText =
     (case metadataText of
        None \<Rightarrow> ([], [], [])
      | Some t \<Rightarrow>
          if t = [] then ([], [], [])
          else (let parts = split t metadata_separator
                in (part_or_empty parts 0, part_or_empty parts 1, part_or_empty parts 2)))"

definition middle_dot :: js_string where
  "middle_dot = [32, 183, 32]"

subsection \<open>JavaScript numbers\<close>

text \<open>
  A Number is an IEEE 754 binary64 value. The numbers of this program are never negative,
  so the model has the non-negative finite values (as rationals), \<open>+Infinity\<close> and
  \<open>NaN\<close>. \<open>to_double q\<close> rounds a non-negative rational to the nearest binary64
  value, ties to even: the spacing of the values around \<open>q\<close> is \<open>2 ^ e\<close> with
  \<open>e = max (\<lfloor>log\<^sub>2 q\<rfloor> - 52) (- 1074)\<close>, and a result of \<open>2 ^ 1024\<close> or more
  overflows to \<open>+Infinity\<close> (\<open>double_overflow\<close> is \<open>2 ^ 1024\<close> written out).
\<close>

datatype js_number = Finite rat | PosInfinity | NaN

definition pow2 :: "int \<Rightarrow> rat" where
  "pow2 e = (if 0 \<le> e then 2 ^ nat e else 1 / 2 ^ nat (- e))"

definition round_ties_even :: "rat \<Rightarrow> int" where
  "round_ties_even x =
     (let f = \<lfloor>x\<rfloor>; d = x - of_int f
      in if d < 1 / 2 then f else if 1 / 2 < d then f + 1 else if even f then f else f + 1)"

definition binary_exponent :: "rat \<Rightarrow> int" where
  "binary_exponent q =
     (case quotient_of q of (n, d) \<Rightarrow>
        let k = bitlen n - bitlen d in if pow2 k \<le> q then k else k - 1)"

definition double_overflow :: rat where
  "double_overflow =
     179769313486231590772930519078902473361797697894230657273430081157732675805500963132708477322407536021120113879871393357658789768814416622492847430639474124377767893424865485276302219601246094119453082952085005768838150682342462881473913110540827237163350510684586298239947245938479716304835356329624224137216"

definition to_double :: "rat \<Rightarrow> js_number" where
  "to_double q =
     (if q \<le> 0 then Finite 0
      else let e = max (binary_exponent q - 52) (- 1074);
               r = of_int (round_ties_even (q / pow2 e)) * pow2 e
           in if double_overflow \<le> r then PosInfinity else Finite r)"

fun js_mul :: "js_number \<Rightarrow> js_number \<Rightarrow> js_number" where
  "js_mul (Finite a) (Finite b) = to_double (a * b)"
| "js_mul NaN _ = NaN"
| "js_mul _ NaN = NaN"
| "js_mul PosInfinity (Finite b) = (if b = 0 then NaN else PosInfinity)"
| "js_mul (Finite a) PosInfinity = (if a = 0 then NaN else PosInfinity)"
| "js_mul PosInfinity PosInfinity = PosInfinity"

fun Math_floor :: "js_number \<Rightarrow> js_number" where
  "Math_floor (Finite a) = Finite (of_int \<lfloor>a\<rfloor>)"
| "Math_floor PosInfinity = PosInfinity"
| "Math_floor NaN = NaN"

definition is_digit :: "nat \<Rightarrow> bool" where
  "is_digit c \<longleftrightarrow> 48 \<le> c \<and> c \<le> 57"

definition digits_value :: "js_string \<Rightarrow> nat" where
  "digits_value ds = foldl (\<lambda>a c. 10 * a + (c - 48)) 0 ds"

text \<open>
  \<^verbatim>\<open>parseInt(s, 10)\<close> and \<^verbatim>\<open>parseFloat(s)\<close>, on the texts the program passes: a run of
  digits for \<open>parseInt\<close>; a run of digits, then optionally a dot and a run of digits, for
  \<open>parseFloat\<close>. The result is the Number nearest to the decimal value (ECMAScript
  lets an engine approximate beyond 20 significant digits; V8 does not). A text that does
  not start with a digit gives \<open>NaN\<close>.
\<close>

definition parseInt :: "js_string \<Rightarrow> js_number" where
  "parseInt s =
     (let ds = takeWhile is_digit s
      in if ds = [] then NaN else to_double (of_nat (digits_value ds)))"

definition parseFloat :: "js_string \<Rightarrow> js_number" where
  "parseFloat s =
     (let ip = takeWhile is_digit s; r = dropWhile is_digit s
      in if ip = [] then NaN
         else case r of
                c # r' \<Rightarrow>
                  if c = 46
                  then (let fp = takeWhile is_digit r'
                        in to_double (of_nat (digits_value (ip @ fp)) / 10 ^ length fp))
                  else to_double (of_nat (digits_value ip))
              | [] \<Rightarrow> to_double (of_nat (digits_value ip)))"

subsection \<open>convertReviewsToNumeric\<close>

text \<open>
  \<^verbatim>\<open>/(\d+(?:\.\d+)?)(K|M)/\<close> matched at the start of \<open>s\<close>; the result is capture 1 and
  the code unit of capture 2. \<^verbatim>\<open>\d+\<close> is greedy, and giving back digits never helps:
  the next code unit would be a digit, which is neither a dot nor a unit. So the digits
  are the whole run; then the fraction is tried, and without it the unit.
\<close>

definition is_magnitude :: "nat \<Rightarrow> bool" where
  "is_magnitude c \<longleftrightarrow> c = 75 \<or> c = 77"

definition match_suffixed_here :: "js_string \<Rightarrow> (js_string \<times> nat) option" where
  "match_suffixed_here s =
     (let ip = takeWhile is_digit s; r = dropWhile is_digit s
      in if ip = [] then None
         else case r of
                [] \<Rightarrow> None
              | c # r' \<Rightarrow>
                  if c = 46
                  then (let fp = takeWhile is_digit r'
                        in case dropWhile is_digit r' of
                             [] \<Rightarrow> None
                           | u # _ \<Rightarrow>
                               if fp \<noteq> [] \<and> is_magnitude u then Some (ip @ [46] @ fp, u) else None)
                  else if is_magnitude c then Some (ip, c) else None)"

text \<open>\<^verbatim>\<open>String.prototype.match\<close> without the g flag: the leftmost position that matches.\<close>

fun match_suffixed :: "js_string \<Rightarrow> (js_string \<times> nat) option" where
  "match_suffixed [] = None"
| "match_suffixed (c # cs) =
     (case match_suffixed_here (c # cs) of
        Some m \<Rightarrow> Some m
      | None \<Rightarrow> match_suffixed cs)"

text \<open>\<^verbatim>\<open>/(\d+)/\<close>: the first run of digits.\<close>

definition match_digits :: "js_string \<Rightarrow> js_string option" where
  "match_digits s =
     (let r = dropWhile (\<lambda>c. \<not> is_digit c) s
      in if r = [] then None else Some (takeWhile is_digit r))"

definition digits_fallback :: "js_string \<Rightarrow> js_number" where
  "digits_fallback t = (case match_digits t of Some ds \<Rightarrow> parseInt ds | None \<Rightarrow> Finite 0)"

definition convertReviewsToNumeric :: "js_string option \<Rightarrow> js_number" where
  "convertReviewsToNumeric reviewsText =
     (case reviewsText of
        None \<Rightarrow> Finite 0
      | Some t \<Rightarrow>
          if t = [] then Finite 0
          else (case match_suffixed t of
                  Some (num, unit) \<Rightarrow>
                    if unit = 75 then Math_floor (js_mul (parseFloat num) (Finite 1000))
                    else if unit = 77 then Math_floor (js_mul (parseFloat num) (Finite 1000000))
                    else digits_fallback t
                | None \<Rightarrow> digits_fallback t))"

subsection \<open>cleanSkills\<close>

text \<open>
  \<^verbatim>\<open>skillsText.startsWith\<close> is a property read: on \<^verbatim>\<open>undefined\<close> it throws a
  TypeError.
\<close>

datatype js_error = TypeError

definition skills_label :: js_string where
  "skills_label = ascii ''Skills you'll gain:''"

definition cleanSkills :: "js_string option \<Rightarrow> js_error + js_string" where
  "cleanSkills skillsText =
     (case skillsText of
        None \<Rightarrow> Inl TypeError
      | Some t \<Rightarrow>
          if prefix skills_label t then Inr (trim (drop (length skills_label) t))
          else Inr (trim t))"

section \<open>Record builder\<close>

text \<open>
  More string methods. \<^verbatim>\<open>s.includes(sub)\<close>; \<^verbatim>\<open>s.replace(pat, rep)\<close> with a string
  pattern replaces the first occurrence only (\<open>rep\<close> has no \<^verbatim>\<open>$\<close> here).
\<close>

fun js_includes :: "js_string \<Rightarrow> js_string \<Rightarrow> bool" where
  "js_includes [] sub = (sub = [])"
| "js_includes (c # cs) sub = (prefix sub (c # cs) \<or> js_includes cs sub)"

fun replace_first :: "js_string \<Rightarrow> js_string \<Rightarrow> js_string \<Rightarrow> js_string" where
  "replace_first pat rep [] = (if pat = [] then rep else [])"
| "replace_first pat rep (c # cs) =
     (if prefix pat (c # cs) then rep @ drop (length pat) (c # cs)
      else c # replace_first pat rep cs)"

text \<open>
  What the cheerio lookups of \<^verbatim>\<open>extractCourseInfo\<close> see of one card
  (\<^verbatim>\<open>div.cds-ProductCard-base\<close>): for each selector the matched elements in document
  order, each with its text. \<^verbatim>\<open>.text()\<close> of a selection is the concatenation of the
  texts, \<^verbatim>\<open>.length\<close> the number of elements, \<^verbatim>\<open>.attr\<close> the attribute of the first
  element.
  \<^item> \<open>titleElems\<close>: \<^verbatim>\<open>h3.cds-CommonCard-title\<close>;
  \<^item> \<open>partnerElems\<close>: \<^verbatim>\<open>p.cds-ProductCard-partnerNames\<close>;
  \<^item> \<open>ratingElems\<close>: \<^verbatim>\<open>span.css-4s48ix\<close>, each with the text of its next sibling
    when that sibling matches \<^verbatim>\<open>div.css-vac8rf\<close>;
  \<^item> \<open>skillsParagraphs\<close>: \<^verbatim>\<open>p.css-vac8rf\<close> below a \<^verbatim>\<open>div.cds-CommonCard-bodyContent\<close>
    (none when there is no such div);
  \<^item> \<open>metadataParagraphs\<close>: \<^verbatim>\<open>p\<close> below a \<^verbatim>\<open>div.cds-CommonCard-metadata\<close>;
  \<^item> \<open>titleLinks\<close>: \<^verbatim>\<open>a.cds-CommonCard-titleLink\<close>, each with its \<^verbatim>\<open>href\<close> if any;
  \<^item> \<open>plusElems\<close>: the number of \<^verbatim>\<open>div[data-testid="product-card-coursera-plus"]\<close>;
  \<^item> \<open>degreeElems\<close>: \<^verbatim>\<open>p.css-ls7ln4\<close>.
\<close>

record card =
  titleElems :: "js_string list"
  partnerElems :: "js_string list"
  ratingElems :: "(js_string \<times> js_string option) list"
  skillsParagraphs :: "js_string list"
  metadataParagraphs :: "js_string list"
  titleLinks :: "js_string option list"
  plusElems :: nat
  degreeElems :: "js_string list"

record course =
  title :: js_string
  partner :: js_string
  rating :: js_string
  reviews :: js_number
  skills :: js_string
  level :: js_string
  course_type :: js_string
  duration :: js_string
  url :: js_string
  course_plus :: js_string
  degree :: js_string

definition text_of :: "js_string list \<Rightarrow> js_string" where
  "text_of elems = concat elems"

text \<open>\<^verbatim>\<open>ratingElem.next('div.css-vac8rf')\<close>: the matching next siblings.\<close>

definition next_elems :: "(js_string \<times> js_string option) list \<Rightarrow> js_string list" where
  "next_elems elems = concat (map (\<lambda>(t, n). case n of None \<Rightarrow> [] | Some u \<Rightarrow> [u]) elems)"

text \<open>
  The reviews text. \<open>toLowerCase\<close> is \<^verbatim>\<open>String.prototype.toLowerCase\<close>; the Unicode
  case mapping is not part of the source, so it is a parameter.
\<close>

definition reviews_text ::
  "(js_string \<Rightarrow> js_string) \<Rightarrow> (js_string \<times> js_string option) list \<Rightarrow> js_string" where
  "reviews_text toLowerCase ratingElem =
     (if ratingElem \<noteq> []
      then (let nextElem = next_elems ratingElem
            in if nextElem \<noteq> [] \<and> js_includes (toLowerCase (text_of nextElem)) (ascii ''reviews'')
               then trim (text_of nextElem) else [])
      else [])"

definition skills_text :: "js_string list \<Rightarrow> js_string" where
  "skills_text skillsP =
     (if skillsP \<noteq> []
      then replace_first (ascii ''Skills you'll gain: '') [] (trim (text_of skillsP))
      else [])"

definition metadata_text :: "js_string list \<Rightarrow> js_string" where
  "metadata_text metadataP = (if metadataP \<noteq> [] then trim (text_of metadataP) else [])"

definition card_url :: "js_string option list \<Rightarrow> js_string" where
  "card_url linkElem =
     (case linkElem of
        [] \<Rightarrow> []
      | href # _ \<Rightarrow>
          (case href of
             None \<Rightarrow> []
           | Some h \<Rightarrow> if h \<noteq> [] then ascii ''https://www.coursera.org'' @ h else []))"

text \<open>
  The body of the \<^verbatim>\<open>each\<close> callback: one card to one course, or the exception thrown.
  \<open>extractCourseInfo\<close> runs it over the cards in document order (its log line with the
  number of cards is left out).
\<close>

definition extractCard :: "(js_string \<Rightarrow> js_string) \<Rightarrow> card \<Rightarrow> js_error + course" where
  "extractCard toLowerCase c =
     (case cleanSkills (Some (skills_text (skillsParagraphs c))) of
        Inl e \<Rightarrow> Inl e
      | Inr cleaned \<Rightarrow>
          (case extractMetadata (Some (metadata_text (metadataParagraphs c))) of
             (lv, ty, du) \<Rightarrow>
               Inr \<lparr> title = trim (text_of (titleElems c)),
                     partner = trim (text_of (partnerElems c)),
                     rating = (let r = trim (text_of (map fst (ratingElems c)))
                               in if r \<noteq> [] then r else ascii ''-''),
                     reviews = convertReviewsToNumeric (Some (reviews_text toLowerCase (ratingElems c))),
                     skills = cleaned,
                     level = lv,
                     course_type = ty,
                     duration = du,
                     url = card_url (titleLinks c),
                     course_plus = (if plusElems c \<noteq> 0 then ascii ''plus'' else ascii ''-''),
                     degree = (if degreeElems c \<noteq> [] \<and>
                                  js_includes (text_of (degreeElems c)) (ascii ''Build toward a degree'')
                               then ascii ''degree'' else ascii ''-'') \<rparr>))"

fun extractCourseInfo :: "(js_string \<Rightarrow> js_string) \<Rightarrow> card list \<Rightarrow> js_error + course list" where
  "extractCourseInfo toLowerCase [] = Inr []"
| "extractCourseInfo toLowerCase (c # cs) =
     (case extractCard toLowerCase c of
        Inl e \<Rightarrow> Inl e
      | Inr x \<Rightarrow>
          (case extractCourseInfo toLowerCase cs of
             Inl e \<Rightarrow> Inl e
           | Inr xs \<Rightarrow> Inr (x # xs)))"

section \<open>Schema unifier and exporter\<close>

text \<open>
  The skill list of a course, as both \<^verbatim>\<open>main\<close> and \<^verbatim>\<open>saveToCsv\<close> compute it:
  \<^verbatim>\<open>course.skills ? course.skills.split(',').map(s => s.trim()) : []\<close>.
\<close>

definition courseSkills :: "course \<Rightarrow> js_string list" where
  "courseSkills c = (if skills c \<noteq> [] then map trim (split (skills c) [44]) else [])"

text \<open>
  A \<^verbatim>\<open>Set\<close> of strings in insertion order; \<^verbatim>\<open>Array.from(uniqueSkills).sort()\<close> orders
  the strings by their code units.
\<close>

definition set_add :: "js_string list \<Rightarrow> js_string \<Rightarrow> js_string list" where
  "set_add s x = (if x \<in> set s then s else s @ [x])"

definition uniqueSkills :: "course list \<Rightarrow> js_string list" where
  "uniqueSkills courses = foldl (\<lambda>s c. foldl set_add s (courseSkills c)) [] courses"

definition uniqueSkillsArray :: "course list \<Rightarrow> js_string list" where
  "uniqueSkillsArray courses = sort (uniqueSkills courses)"

text \<open>
  Objects with string keys and primitive values. An assignment \<^verbatim>\<open>record[k] = v\<close>
  creates or overwrites the own property \<open>k\<close>, except for \<^verbatim>\<open>__proto__\<close>: that is the
  accessor of \<^verbatim>\<open>Object.prototype\<close>, whose setter ignores a primitive.
\<close>

datatype js_value = Str js_string | Num js_number

type_synonym js_object = "js_string \<rightharpoonup> js_value"

definition set_prop :: "js_object \<Rightarrow> js_string \<Rightarrow> js_value \<Rightarrow> js_object" where
  "set_prop obj k v = (if k = ascii ''__proto__'' then obj else obj(k \<mapsto> v))"

text \<open>\<^verbatim>\<open>{ ...course }\<close>: the own properties of a course built by \<open>extractCard\<close>.\<close>

definition spread :: "course \<Rightarrow> js_object" where
  "spread c =
     [ascii ''title'' \<mapsto> Str (title c),
      ascii ''partner'' \<mapsto> Str (partner c),
      ascii ''rating'' \<mapsto> Str (rating c),
      ascii ''reviews'' \<mapsto> Num (reviews c),
      ascii ''skills'' \<mapsto> Str (skills c),
      ascii ''level'' \<mapsto> Str (level c),
      ascii ''type'' \<mapsto> Str (course_type c),
      ascii ''duration'' \<mapsto> Str (duration c),
      ascii ''url'' \<mapsto> Str (url c),
      ascii ''plus'' \<mapsto> Str (course_plus c),
      ascii ''degree'' \<mapsto> Str (degree c)]"

definition fixed_columns :: "js_string list" where
  "fixed_columns =
     [ascii ''partner'', ascii ''title'', ascii ''plus'', ascii ''level'', ascii ''type'',
      ascii ''duration'', ascii ''degree'', ascii ''rating'', ascii ''reviews'', ascii ''url'']"

definition export_record :: "js_string list \<Rightarrow> course \<Rightarrow> js_object" where
  "export_record vocabulary c =
     (let record = foldl (\<lambda>r skill.
                      set_prop r skill (Str (if skill \<in> set (courseSkills c) then skill else [])))
                    (spread c) vocabulary
      in record(ascii ''skills'' := None))"

text \<open>
  \<^verbatim>\<open>saveToCsv\<close>: what it logs, and what it hands to the CSV writer (the path, the header
  ids and the records), if anything. The serialization is the writer's.
\<close>

datatype log_line = No_courses_found | Extracted_and_saved nat js_string

record csv_file =
  path :: js_string
  header :: "js_string list"
  records :: "js_object list"

record outcome =
  console :: "log_line list"
  written :: "csv_file option"

definition saveToCsv :: "course list \<Rightarrow> js_string \<Rightarrow> js_string list \<Rightarrow> outcome" where
  "saveToCsv courses outputFile vocabulary =
     (if length courses = 0
      then \<lparr> console = [No_courses_found], written = None \<rparr>
      else \<lparr> console = [Extracted_and_saved (length courses) outputFile],
             written = Some \<lparr> path = outputFile,
                              header = fixed_columns @ vocabulary,
                              records = map (export_record vocabulary) courses \<rparr> \<rparr>)"

text \<open>The export step of \<^verbatim>\<open>main\<close>, from the extracted courses on.\<close>

definition export_courses :: "course list \<Rightarrow> outcome" where
  "export_courses courses =
     saveToCsv courses (ascii ''coursera_courses.csv'') (uniqueSkillsArray courses)"

section \<open>Content loader\<close>

text \<open>
  The scroll loop of \<^verbatim>\<open>main\<close>. The page is a sequence of extents: \<open>height k\<close> is what
  the \<open>k\<close>-th evaluation of \<^verbatim>\<open>document.body.scrollHeight\<close> returns (the first one, number
  0, initialises \<open>lastHeight\<close>). \<open>scroll_loop height k lastHeight trace\<close> is the loop about
  to scroll and take measurement \<open>k\<close>; \<open>trace\<close> records the outcome of each comparison so
  far: \<open>LOADING\<close> when the loop goes round again, \<open>CONVERGED\<close> at the \<^verbatim>\<open>break\<close>. The
  loop returns the number of measurements taken and the trace when it leaves, and \<open>None\<close>
  when it never does.
\<close>

datatype phase = LOADING | CONVERGED

partial_function (option) scroll_loop ::
  "(nat \<Rightarrow> int) \<Rightarrow> nat \<Rightarrow> int \<Rightarrow> phase list \<Rightarrow> (nat \<times> phase list) option" where
  "scroll_loop height k lastHeight trace =
     (if height k = lastHeight then Some (Suc k, trace @ [CONVERGED])
      else scroll_loop height (Suc k) (height k) (trace @ [LOADING]))"

definition load_page :: "(nat \<Rightarrow> int) \<Rightarrow> (nat \<times> phase list) option" where
  "load_page height = scroll_loop height 1 (height 0) []"

text \<open>
  Simulated pages: a finite sequence of extents, after which the page keeps its last
  extent; and a page that grows at every measurement.
\<close>

definition extents_of :: "int list \<Rightarrow> nat \<Rightarrow> int" where
  "extents_of xs k = (if k < length xs then xs ! k else last xs)"

definition growing_page :: "nat \<Rightarrow> int" where
  "growing_page k = int k"

section \<open>Predicates and sample data\<close>

text \<open>
  A Number that is a non-negative integer, or \<open>+Infinity\<close>; a string with no white space
  at either end.
\<close>

definition integer_or_infinity :: "js_number \<Rightarrow> bool" where
  "integer_or_infinity x =
     (case x of Finite r \<Rightarrow> 0 \<le> r \<and> r = of_int \<lfloor>r\<rfloor> | PosInfinity \<Rightarrow> True | NaN \<Rightarrow> False)"

definition trimmed :: "js_string \<Rightarrow> bool" where
  "trimmed s \<longleftrightarrow> s = [] \<or> (\<not> is_ws (hd s) \<and> \<not> is_ws (last s))"

text \<open>\<^verbatim>\<open>toLowerCase\<close> on the ASCII letters, for the sample cards (which are ASCII).\<close>

definition ascii_lower :: "js_string \<Rightarrow> js_string" where
  "ascii_lower s = map (\<lambda>c. if 65 \<le> c \<and> c \<le> 90 then c + 32 else c) s"

definition bare_card :: card where
  "bare_card =
     \<lparr> titleElems = [], partnerElems = [], ratingElems = [], skillsParagraphs = [],
       metadataParagraphs = [], titleLinks = [], plusElems = 0, degreeElems = [] \<rparr>"

definition sample_card :: card where
  "sample_card =
     \<lparr> titleElems = [ascii ''Data Analysis''],
       partnerElems = [ascii ''A University''],
       ratingElems = [(ascii ''4.8'', Some (ascii ''(457 Reviews)''))],
       skillsParagraphs = [ascii ''Skills you'll gain: SQL, Python''],
       metadataParagraphs = [ascii ''Beginner''],
       titleLinks = [Some (ascii ''/learn/data'')],
       plusElems = 1,
       degreeElems = [] \<rparr>"

definition sample_course :: course where
  "sample_course =
     \<lparr> title = ascii ''Data Analysis'', partner = ascii ''A University'',
       rating = ascii ''4.8'', reviews = Finite 457, skills = ascii ''SQL, Python'',
       level = ascii ''Beginner'', course_type = [], duration = [],
       url = ascii ''https://www.coursera.org/learn/data'',
       course_plus = ascii ''plus'', degree = ascii ''-'' \<rparr>"

definition two_courses :: "course list" where
  "two_courses = [sample_course, sample_course\<lparr> title := ascii ''Python Basics'', skills := ascii ''Python'' \<rparr>]"

text \<open>A card with an empty entry in its skills, and courses with a skill named like a column.\<close>

definition comma_card :: card where
  "comma_card = bare_card\<lparr> skillsParagraphs := [ascii ''Skills you'll gain: Python,, SQL''] \<rparr>"

definition skills_named_course :: course where
  "skills_named_course = sample_course\<lparr> skills := ascii ''skills'' \<rparr>"

definition title_named_course :: course where
  "title_named_course = sample_course\<lparr> skills := ascii ''title, Python'' \<rparr>"

text \<open>The header and one column of what \<open>saveToCsv\<close> hands to the writer.\<close>

definition header_of :: "outcome \<Rightarrow> js_string list" where
  "header_of out = (case written out of None \<Rightarrow> [] | Some f \<Rightarrow> header f)"

definition column :: "js_string \<Rightarrow> outcome \<Rightarrow> js_value option list" where
  "column k out = (case written out of None \<Rightarrow> [] | Some f \<Rightarrow> map (\<lambda>r. r k) (records f))"

section \<open>Properties\<close>

lemma ascii_simps:
  "ascii [] = []"
  "ascii (c # cs) = of_char c # ascii cs"
  by (simp_all add: ascii_def)

subsection \<open>Strings\<close>

lemma last_dropWhile: "dropWhile P xs \<noteq> [] \<Longrightarrow> last (dropWhile P xs) = last xs"
proof -
  assume a: "dropWhile P xs \<noteq> []"
  have "last xs = last (takeWhile P xs @ dropWhile P xs)" by simp
  also have "\<dots> = last (dropWhile P xs)" using a by (rule last_appendR)
  finally show ?thesis by simp
qed

lemma trim_ends:
  "trim s = [] \<or> (\<not> is_ws (hd (trim s)) \<and> \<not> is_ws (last (trim s)))"
proof (cases "trim s = []")
  case True
  then show ?thesis by simp
next
  case False
  define t where "t = dropWhile is_ws s"
  define u where "u = dropWhile is_ws (rev t)"
  have tr: "trim s = rev u" by (simp add: trim_def t_def u_def)
  with False have u: "u \<noteq> []" by simp
  then have t: "t \<noteq> []" by (auto simp: u_def)
  have "\<not> is_ws (hd u)" using u unfolding u_def by (rule hd_dropWhile)
  then have l: "\<not> is_ws (last (trim s))" using u by (simp add: tr last_rev)
  have "last u = last (rev t)" using u unfolding u_def by (rule last_dropWhile)
  then have "hd (trim s) = hd t" using u t by (simp add: tr hd_rev last_rev)
  moreover have "\<not> is_ws (hd t)" using t unfolding t_def by (rule hd_dropWhile)
  ultimately show ?thesis using l by simp
qed

subsection \<open>Numbers\<close>

lemma pow2_pos: "0 < pow2 e"
  by (simp add: pow2_def)

lemma round_ties_even_nonneg: "0 \<le> x \<Longrightarrow> 0 \<le> round_ties_even x"
  by (auto simp: round_ties_even_def Let_def)

lemma round_ties_even_of_int: "round_ties_even (of_int z) = z"
  by (simp add: round_ties_even_def)

lemma to_double_cases:
  "to_double q = PosInfinity \<or> (\<exists>r\<ge>0. to_double q = Finite r)"
proof (cases "q \<le> 0")
  case True
  then show ?thesis by (simp add: to_double_def)
next
  case False
  define e where "e = max (binary_exponent q - 52) (- 1074)"
  have "0 \<le> q / pow2 e" using False pow2_pos[of e] by simp
  then have "0 \<le> round_ties_even (q / pow2 e)" by (rule round_ties_even_nonneg)
  then have "0 \<le> of_int (round_ties_even (q / pow2 e)) * pow2 e"
    using pow2_pos[of e] by simp
  then show ?thesis using False by (simp add: to_double_def Let_def e_def)
qed

lemma integer_or_infinity_to_double_of_nat: "integer_or_infinity (to_double (of_nat n))"
proof (cases "(of_nat n :: rat) \<le> 0")
  case True
  then show ?thesis by (simp add: to_double_def integer_or_infinity_def)
next
  case False
  define q :: rat where "q = of_nat n"
  define e where "e = max (binary_exponent q - 52) (- 1074)"
  define r where "r = of_int (round_ties_even (q / pow2 e)) * pow2 e"
  have td: "to_double q = (if double_overflow \<le> r then PosInfinity else Finite r)"
    using False by (simp add: to_double_def Let_def e_def r_def q_def)
  have "0 \<le> q / pow2 e" using False pow2_pos[of e] by (simp add: q_def)
  then have m0: "0 \<le> round_ties_even (q / pow2 e)" by (rule round_ties_even_nonneg)
  have "0 \<le> r \<and> r = of_int \<lfloor>r\<rfloor>"
  proof (cases "0 \<le> e")
    case True
    then have "r = of_int (round_ties_even (q / pow2 e) * 2 ^ nat e)"
      by (simp add: r_def pow2_def)
    then show ?thesis using m0 by simp
  next
    case neg: False
    then have p: "pow2 e = 1 / 2 ^ nat (- e)" by (simp add: pow2_def)
    have "q / pow2 e = of_int (int n * 2 ^ nat (- e))" by (simp add: p q_def)
    then have "round_ties_even (q / pow2 e) = int n * 2 ^ nat (- e)"
      by (simp only: round_ties_even_of_int)
    then have "r = of_nat n" by (simp add: r_def p)
    then show ?thesis by simp
  qed
  then show ?thesis using td by (simp add: integer_or_infinity_def q_def)
qed

lemma integer_or_infinity_floor_scaled:
  assumes "x \<noteq> NaN" and "0 < b"
  shows "integer_or_infinity (Math_floor (js_mul x (Finite b)))"
proof (cases x)
  case (Finite a)
  from to_double_cases[of "a * b"] show ?thesis
  proof
    assume "to_double (a * b) = PosInfinity"
    then show ?thesis by (simp add: Finite integer_or_infinity_def)
  next
    assume "\<exists>r\<ge>0. to_double (a * b) = Finite r"
    then obtain r where "0 \<le> r" "to_double (a * b) = Finite r" by blast
    then show ?thesis by (simp add: Finite integer_or_infinity_def)
  qed
next
  case PosInfinity
  then show ?thesis using assms by (simp add: integer_or_infinity_def)
next
  case NaN
  with assms show ?thesis by simp
qed

lemma to_double_not_NaN: "to_double q \<noteq> NaN"
  using to_double_cases[of q] by auto

lemma parseFloat_not_NaN: "takeWhile is_digit s \<noteq> [] \<Longrightarrow> parseFloat s \<noteq> NaN"
  by (simp add: parseFloat_def Let_def to_double_not_NaN split: list.splits)

lemma match_suffixed_here_digits:
  "match_suffixed_here s = Some (num, u) \<Longrightarrow> takeWhile is_digit num \<noteq> []"
proof -
  assume a: "match_suffixed_here s = Some (num, u)"
  define ip where "ip = takeWhile is_digit s"
  from a have ip: "ip \<noteq> []"
    by (auto simp: match_suffixed_here_def Let_def ip_def split: if_splits)
  then have d: "is_digit (hd ip)"
    unfolding ip_def by (metis hd_in_set set_takeWhileD)
  from a obtain rest where "num = ip @ rest"
    by (auto simp: match_suffixed_here_def Let_def ip_def split: if_splits list.splits)
  with ip d show ?thesis by (cases ip) auto
qed

lemma match_suffixed_digits:
  "match_suffixed s = Some (num, u) \<Longrightarrow> takeWhile is_digit num \<noteq> []"
  by (induction s) (auto split: option.splits dest: match_suffixed_here_digits)

lemma match_digits_run:
  assumes "match_digits t = Some ds"
  shows "ds \<noteq> [] \<and> takeWhile is_digit ds = ds"
proof -
  define r where "r = dropWhile (\<lambda>c. \<not> is_digit c) t"
  from assms have r: "r \<noteq> []" and ds: "ds = takeWhile is_digit r"
    by (auto simp: match_digits_def Let_def r_def split: if_splits)
  have "\<not> \<not> is_digit (hd r)" using r unfolding r_def by (rule hd_dropWhile)
  with r have "ds \<noteq> []" by (cases r) (auto simp: ds)
  then show ?thesis by (simp add: ds)
qed

lemma integer_or_infinity_digits_fallback: "integer_or_infinity (digits_fallback t)"
proof (cases "match_digits t")
  case None
  then show ?thesis by (simp add: digits_fallback_def integer_or_infinity_def)
next
  case (Some ds)
  from match_digits_run[OF Some] have ne: "ds \<noteq> []" and tw: "takeWhile is_digit ds = ds"
    by blast+
  show ?thesis
    by (simp add: digits_fallback_def parseInt_def Some tw ne integer_or_infinity_to_double_of_nat)
qed

lemma integer_or_infinity_convertReviewsToNumeric: "integer_or_infinity (convertReviewsToNumeric t)"
proof (cases t)
  case None
  then show ?thesis by (simp add: convertReviewsToNumeric_def integer_or_infinity_def)
next
  case (Some s)
  show ?thesis
  proof (cases "match_suffixed s")
    case None
    then show ?thesis
      using integer_or_infinity_digits_fallback[of s]
      by (simp add: Some convertReviewsToNumeric_def integer_or_infinity_def)
  next
    case (Some m)
    obtain num u where m: "m = (num, u)" by (cases m)
    have nn: "parseFloat num \<noteq> NaN"
      using Some m by (auto dest: match_suffixed_digits parseFloat_not_NaN)
    have "integer_or_infinity (Math_floor (js_mul (parseFloat num) (Finite 1000)))"
      "integer_or_infinity (Math_floor (js_mul (parseFloat num) (Finite 1000000)))"
      using nn by (simp_all add: integer_or_infinity_floor_scaled)
    then show ?thesis
      using integer_or_infinity_digits_fallback[of s] Some m \<open>t = Some s\<close>
      by (simp add: convertReviewsToNumeric_def integer_or_infinity_def)
  qed
qed

text \<open>
  The rounding is to a binary64 value next to the argument: the exponent brackets the
  argument, the error is at most half the spacing, binary64 values are kept, and
  \<open>2 ^ 1024\<close> and beyond overflow.
\<close>

lemma pow2_powi: "pow2 e = 2 powi e"
  by (simp add: pow2_def power_int_def power_one_over)

lemma bitlen_powi_bounds:
  assumes "0 < n"
  shows "(2::rat) powi (bitlen n - 1) \<le> of_int n" and "(of_int n :: rat) < 2 powi bitlen n"
proof -
  from bitlen_bounds[OF assms]
  have lo: "2 ^ nat (bitlen n - 1) \<le> n" and hi: "n < 2 ^ nat (bitlen n)" by blast+
  have b1: "1 \<le> bitlen n"
    using assms bitlen_nonneg[of n] hi by (cases "bitlen n = 0") auto
  have "(of_int (2 ^ nat (bitlen n - 1)) :: rat) \<le> of_int n"
    using lo by (simp only: of_int_le_iff)
  then show "(2::rat) powi (bitlen n - 1) \<le> of_int n"
    using b1 by (simp add: power_int_def)
  have "(of_int n :: rat) < of_int (2 ^ nat (bitlen n))"
    using hi by (simp only: of_int_less_iff)
  then show "(of_int n :: rat) < 2 powi bitlen n"
    using b1 by (simp add: power_int_def)
qed

lemma binary_exponent_bounds:
  assumes "0 < q"
  shows "pow2 (binary_exponent q) \<le> q" and "q < pow2 (binary_exponent q + 1)"
proof -
  obtain n d where qd: "quotient_of q = (n, d)" by (cases "quotient_of q")
  then have d: "0 < d" and q: "q = of_int n / of_int d"
    by (auto dest: quotient_of_denom_pos quotient_of_div)
  from assms q d have n: "0 < n" by (simp add: zero_less_divide_iff)
  define k where "k = bitlen n - bitlen d"
  have dr: "(0::rat) < of_int d" using d by simp
  have "q < 2 powi bitlen n / of_int d"
    unfolding q using bitlen_powi_bounds(2)[OF n] dr by (simp add: divide_strict_right_mono)
  also have "\<dots> \<le> 2 powi bitlen n / 2 powi (bitlen d - 1)"
    using bitlen_powi_bounds(1)[OF d] by (intro divide_left_mono) (auto intro: mult_pos_pos dr)
  also have "\<dots> = 2 powi (k + 1)"
    by (simp add: k_def power_int_diff[symmetric] algebra_simps)
  finally have hi: "q < 2 powi (k + 1)" .
  have "2 powi (k - 1) = (2::rat) powi (bitlen n - 1) / 2 powi bitlen d"
    by (simp add: k_def power_int_diff[symmetric] algebra_simps)
  also have "\<dots> \<le> of_int n / 2 powi bitlen d"
    using bitlen_powi_bounds(1)[OF n] by (simp add: divide_right_mono)
  also have "\<dots> < of_int n / of_int d"
    using bitlen_powi_bounds(2)[OF d] n dr by (intro divide_strict_left_mono) (auto intro: mult_pos_pos)
  finally have lo: "2 powi (k - 1) < q" by (simp add: q)
  have be: "binary_exponent q = (if 2 powi k \<le> q then k else k - 1)"
    by (simp add: binary_exponent_def qd Let_def k_def pow2_powi)
  show "pow2 (binary_exponent q) \<le> q"
    using lo by (simp add: be pow2_powi)
  show "q < pow2 (binary_exponent q + 1)"
    using hi by (auto simp: be pow2_powi)
qed

lemma double_overflow_powi: "double_overflow = 2 powi 1024"
  by (simp add: double_overflow_def)

lemma round_ties_even_floor: "\<lfloor>x\<rfloor> \<le> round_ties_even x"
  by (simp add: round_ties_even_def Let_def)

lemma round_ties_even_error: "\<bar>of_int (round_ties_even x) - x\<bar> \<le> 1 / 2"
proof -
  have "of_int \<lfloor>x\<rfloor> \<le> x" "x < of_int \<lfloor>x\<rfloor> + 1" by linarith+
  then show ?thesis by (auto simp: round_ties_even_def Let_def abs_le_iff)
qed

lemma powi2_less_iff: "(2::rat) powi a < 2 powi b \<longleftrightarrow> a < b"
proof
  assume "(2::rat) powi a < 2 powi b"
  show "a < b"
  proof (rule ccontr)
    assume "\<not> a < b"
    then have "(2::rat) powi b \<le> 2 powi a" by (intro power_int_increasing) auto
    with \<open>(2::rat) powi a < 2 powi b\<close> show False by simp
  qed
next
  assume "a < b"
  then show "(2::rat) powi a < 2 powi b" by (intro power_int_strict_increasing) auto
qed

lemma to_double_unfold:
  assumes "0 < q"
  shows "to_double q =
           (let e = max (binary_exponent q - 52) (- 1074);
                r = of_int (round_ties_even (q / 2 powi e)) * 2 powi e
            in if 2 powi 1024 \<le> r then PosInfinity else Finite r)"
  using assms by (simp add: to_double_def pow2_powi double_overflow_powi)

lemma to_double_overflow:
  assumes "double_overflow \<le> q"
  shows "to_double q = PosInfinity"
proof -
  have q1024: "2 powi 1024 \<le> q" using assms by (simp add: double_overflow_powi)
  then have q0: "0 < q" by (rule less_le_trans[rotated]) simp
  define b where "b = binary_exponent q"
  have lo: "2 powi b \<le> q" and hi: "q < 2 powi (b + 1)"
    using binary_exponent_bounds[OF q0] by (simp_all add: b_def pow2_powi)
  define c :: int where "c = 1024"
  from q1024 hi have "(2::rat) powi c < 2 powi (b + 1)" by (simp add: c_def)
  then have "c < b + 1" by (simp only: powi2_less_iff)
  then have b: "1024 \<le> b" by (simp add: c_def)
  then have e: "max (b - 52) (- 1074) = b - 52" by simp
  have "(2::rat) powi 52 = 2 powi b / 2 powi (b - 52)"
    by (simp add: power_int_diff[symmetric])
  also have "\<dots> \<le> q / 2 powi (b - 52)"
    using lo by (simp add: divide_right_mono)
  finally have "(2::rat) ^ 52 \<le> q / 2 powi (b - 52)" by simp
  then have "(2::int) ^ 52 \<le> \<lfloor>q / 2 powi (b - 52)\<rfloor>"
    by (simp add: le_floor_iff)
  then have m: "(2::int) ^ 52 \<le> round_ties_even (q / 2 powi (b - 52))"
    using round_ties_even_floor[of "q / 2 powi (b - 52)"] by linarith
  have "(2::rat) powi 1024 \<le> 2 powi b"
    using b by (intro power_int_increasing) auto
  also have "\<dots> = 2 powi 52 * 2 powi (b - 52)"
    using power_int_add[of "2::rat" 52 "b - 52"] by simp
  also have "\<dots> \<le> of_int (round_ties_even (q / 2 powi (b - 52))) * 2 powi (b - 52)"
  proof (rule mult_right_mono)
    have "(of_int (2 ^ 52) :: rat) \<le> of_int (round_ties_even (q / 2 powi (b - 52)))"
      using m by (simp only: of_int_le_iff)
    then show "(2::rat) powi 52 \<le> of_int (round_ties_even (q / 2 powi (b - 52)))" by simp
  qed simp
  finally have "(2::rat) powi 1024 \<le> of_int (round_ties_even (q / 2 powi (b - 52))) * 2 powi (b - 52)" .
  then show ?thesis
    unfolding to_double_unfold[OF q0] Let_def b_def[symmetric] e by simp
qed

lemma to_double_nearest:
  assumes "0 < q" and "to_double q = Finite r"
  shows "\<bar>r - q\<bar> \<le> pow2 (max (binary_exponent q - 52) (- 1074)) / 2"
proof -
  define e where "e = max (binary_exponent q - 52) (- 1074)"
  have p: "(0::rat) < 2 powi e" by simp
  have r: "r = of_int (round_ties_even (q / 2 powi e)) * 2 powi e"
    using assms by (simp add: to_double_unfold Let_def e_def split: if_splits)
  have "r - q = (of_int (round_ties_even (q / 2 powi e)) - q / 2 powi e) * 2 powi e"
    using p by (simp add: r algebra_simps)
  then have "\<bar>r - q\<bar> = \<bar>of_int (round_ties_even (q / 2 powi e)) - q / 2 powi e\<bar> * 2 powi e"
    using p by (simp add: abs_mult)
  also have "\<dots> \<le> 1 / 2 * 2 powi e"
    using round_ties_even_error[of "q / 2 powi e"] p by (intro mult_right_mono) auto
  finally show ?thesis by (simp add: e_def pow2_powi)
qed

lemma to_double_exact:
  assumes "0 < m" and "m < 2 ^ 53" and "- 1074 \<le> e" and "of_int m * pow2 e < double_overflow"
  shows "to_double (of_int m * pow2 e) = Finite (of_int m * pow2 e)"
proof -
  define q :: rat where "q = of_int m * 2 powi e"
  have q0: "0 < q" using assms(1) by (simp add: q_def)
  define b where "b = binary_exponent q"
  have lo: "2 powi b \<le> q"
    using binary_exponent_bounds(1)[OF q0] by (simp add: b_def pow2_powi)
  have "(of_int m :: rat) < of_int (2 ^ 53)" using assms(2) by (simp only: of_int_less_iff)
  then have "q < 2 powi 53 * 2 powi e" by (simp add: q_def)
  also have "\<dots> = 2 powi (53 + e)" using power_int_add[of "2::rat" 53 e] by simp
  finally have "(2::rat) powi b < 2 powi (53 + e)" using lo by simp
  then have "b < 53 + e" by (simp only: powi2_less_iff)
  then have "b - 52 \<le> e" by simp
  define e' where "e' = max (b - 52) (- 1074)"
  have le: "e' \<le> e" using \<open>b - 52 \<le> e\<close> assms(3) by (simp add: e'_def)
  have "q / 2 powi e' = of_int m * 2 powi (e - e')"
    by (simp add: q_def power_int_diff)
  also have "\<dots> = of_int (m * 2 ^ nat (e - e'))"
    using le by (simp add: power_int_def)
  finally have "round_ties_even (q / 2 powi e') = m * 2 ^ nat (e - e')"
    by (simp only: round_ties_even_of_int)
  then have "of_int (round_ties_even (q / 2 powi e')) * 2 powi e' = of_int m * 2 powi (e - e') * 2 powi e'"
    using le by (simp add: power_int_def)
  also have "\<dots> = q"
    by (simp add: q_def power_int_diff)
  finally have r: "of_int (round_ties_even (q / 2 powi e')) * 2 powi e' = q" .
  have "\<not> 2 powi 1024 \<le> q"
    using assms(4) by (simp add: q_def pow2_powi double_overflow_powi)
  then have "to_double q = Finite q"
    by (simp add: to_double_unfold[OF q0] Let_def b_def[symmetric] e'_def[symmetric] r)
  then show ?thesis by (simp add: q_def pow2_powi)
qed

text \<open>
  The matcher against the pattern: at a position it succeeds exactly on a run of digits,
  optionally a dot and a run of digits, followed by K or M.
\<close>

lemma is_magnitude_not_digit: "is_magnitude u \<Longrightarrow> \<not> is_digit u"
  by (auto simp: is_magnitude_def is_digit_def)

lemma takeWhile_digits_stop:
  "\<forall>c\<in>set ds. is_digit c \<Longrightarrow> \<not> is_digit u \<Longrightarrow> takeWhile is_digit (ds @ u # rest) = ds"
  by (simp add: takeWhile_append2)

lemma dropWhile_digits_stop:
  "\<forall>c\<in>set ds. is_digit c \<Longrightarrow> \<not> is_digit u \<Longrightarrow> dropWhile is_digit (ds @ u # rest) = u # rest"
  by (simp add: dropWhile_append2)

lemma match_suffixed_here_plain:
  assumes "ip \<noteq> []" and "\<forall>c\<in>set ip. is_digit c" and "is_magnitude u"
  shows "match_suffixed_here (ip @ u # rest) = Some (ip, u)"
proof -
  have u: "\<not> is_digit u" "u \<noteq> 46" using assms(3) by (auto simp: is_magnitude_def is_digit_def)
  show ?thesis
    using assms u
    by (simp add: match_suffixed_here_def takeWhile_digits_stop dropWhile_digits_stop)
qed

lemma match_suffixed_here_fraction:
  assumes "ip \<noteq> []" and "\<forall>c\<in>set ip. is_digit c"
    and "fp \<noteq> []" and "\<forall>c\<in>set fp. is_digit c" and "is_magnitude u"
  shows "match_suffixed_here (ip @ 46 # fp @ u # rest) = Some (ip @ 46 # fp, u)"
proof -
  have u: "\<not> is_digit u" using assms(5) by (rule is_magnitude_not_digit)
  have dot: "\<not> is_digit 46" by (simp add: is_digit_def)
  show ?thesis
    using assms u dot
    by (simp add: match_suffixed_here_def takeWhile_digits_stop dropWhile_digits_stop)
qed

lemma match_suffixed_here_sound:
  assumes "match_suffixed_here s = Some (num, u)"
  shows "is_magnitude u \<and> (\<exists>rest. s = num @ u # rest) \<and>
         (\<exists>ip fp. ip \<noteq> [] \<and> (\<forall>c\<in>set ip. is_digit c) \<and> (\<forall>c\<in>set fp. is_digit c) \<and>
                  (num = ip \<or> (fp \<noteq> [] \<and> num = ip @ 46 # fp)))"
proof -
  define ip where "ip = takeWhile is_digit s"
  define r where "r = dropWhile is_digit s"
  have s: "s = ip @ r" by (simp add: ip_def r_def)
  have ipd: "\<forall>c\<in>set ip. is_digit c" by (auto simp: ip_def dest: set_takeWhileD)
  from assms have ip: "ip \<noteq> []"
    by (auto simp: match_suffixed_here_def Let_def ip_def split: if_splits)
  have "r \<noteq> []"
  proof
    assume "r = []"
    then have dw: "dropWhile is_digit s = []" by (simp add: r_def)
    have "match_suffixed_here s = None" by (simp add: match_suffixed_here_def Let_def dw)
    with assms show False by simp
  qed
  then obtain c r' where r: "r = c # r'" by (cases r) auto
  show ?thesis
  proof (cases "c = 46")
    case False
    with assms ip r have "is_magnitude c" "num = ip" "u = c"
      by (auto simp: match_suffixed_here_def Let_def ip_def[symmetric] r_def[symmetric]
          split: if_splits)
    then show ?thesis using s r ip ipd by auto
  next
    case True
    define fp where "fp = takeWhile is_digit r'"
    define r'' where "r'' = dropWhile is_digit r'"
    have r': "r' = fp @ r''" by (simp add: fp_def r''_def)
    have fpd: "\<forall>c\<in>set fp. is_digit c" by (auto simp: fp_def dest: set_takeWhileD)
    from assms ip r True obtain rest where "r'' = u # rest" "fp \<noteq> []" "is_magnitude u"
      "num = ip @ 46 # fp"
      by (auto simp: match_suffixed_here_def Let_def ip_def[symmetric] r_def[symmetric]
          fp_def[symmetric] r''_def[symmetric] split: if_splits list.splits)
    then show ?thesis using s r r' True ip ipd fpd by auto
  qed
qed

lemma match_suffixed_here_all_digits:
  assumes "\<forall>c\<in>set s. is_digit c"
  shows "match_suffixed_here s = None"
proof -
  have dw: "dropWhile is_digit s = []" using assms by simp
  show ?thesis by (simp add: match_suffixed_here_def Let_def dw)
qed

lemma match_suffixed_all_digits:
  "\<forall>c\<in>set s. is_digit c \<Longrightarrow> match_suffixed s = None"
  by (induction s) (simp_all add: match_suffixed_here_all_digits)

lemma digits_value_append: "digits_value (ds @ [c]) = 10 * digits_value ds + (c - 48)"
  by (simp add: digits_value_def)

lemma digits_value_nines: "digits_value (replicate n 57) + 1 = 10 ^ n"
proof (induction n)
  case 0
  then show ?case by (simp add: digits_value_def)
next
  case (Suc n)
  have "digits_value (replicate (Suc n) 57) = 10 * digits_value (replicate n 57) + 9"
    using digits_value_append[of "replicate n 57" 57] by (simp add: replicate_append_same)
  with Suc show ?case by simp
qed

lemma convertReviewsToNumeric_infinite:
  "convertReviewsToNumeric (Some (replicate 310 57)) = PosInfinity"
proof -
  define s :: js_string where "s = replicate 310 57"
  have d: "\<forall>c\<in>set s. is_digit c" by (simp add: s_def is_digit_def)
  have ne: "s \<noteq> []" by (simp add: s_def)
  have m: "match_suffixed s = None" using d by (rule match_suffixed_all_digits)
  have md: "match_digits s = Some s"
    using d ne by (cases s) (auto simp: match_digits_def)
  have tw: "takeWhile is_digit s = s" using d by simp
  have "digits_value s + 1 = 10 ^ 310" unfolding s_def by (rule digits_value_nines)
  then have "(of_nat (digits_value s) :: rat) + 1 = 10 ^ 310"
    by (metis of_nat_Suc Suc_eq_plus1 of_nat_numeral of_nat_power add.commute)
  then have "double_overflow \<le> of_nat (digits_value s)"
    by (simp add: double_overflow_def)
  then have "to_double (of_nat (digits_value s)) = PosInfinity" by (rule to_double_overflow)
  then show ?thesis
    using ne by (simp add: convertReviewsToNumeric_def m md digits_fallback_def parseInt_def tw
        s_def[symmetric])
qed


subsection \<open>Field extractor\<close>

lemmas string_eval = ascii_simps is_digit_def is_magnitude_def is_ws_def trim_def
  match_suffixed_here_def match_digits_def digits_value_def

lemma extractMetadata_examples:
  "extractMetadata (Some (ascii ''Intermediate'' @ metadata_separator @ ascii ''Course''
      @ metadata_separator @ ascii ''4 weeks'')) = (ascii ''Intermediate'', ascii ''Course'', ascii ''4 weeks'')"
  "extractMetadata (Some (ascii ''Beginner'' @ metadata_separator @ ascii ''Course''))
     = (ascii ''Beginner'', ascii ''Course'', [])"
  "extractMetadata (Some []) = ([], [], [])"
  "extractMetadata None = ([], [], [])"
  by (simp_all add: extractMetadata_def split_def metadata_separator_def part_or_empty_def ascii_simps)

text \<open>
  C2. On the documented example, whose parts are separated by SPACE, U+00B7 (middle dot),
  SPACE, \<open>extractMetadata\<close> finds no separator and returns the whole text as the level,
  with an empty type and duration.
\<close>

theorem extractMetadata_middle_dot_unsplit:
  "extractMetadata (Some (ascii ''Intermediate'' @ middle_dot @ ascii ''Course'' @ middle_dot @ ascii ''4 weeks''))
     = (ascii ''Intermediate'' @ middle_dot @ ascii ''Course'' @ middle_dot @ ascii ''4 weeks'', [], [])"
  by (simp add: extractMetadata_def split_def metadata_separator_def middle_dot_def
      part_or_empty_def ascii_simps)

lemma convertReviewsToNumeric_examples:
  "convertReviewsToNumeric (Some (ascii ''12K'')) = Finite 12000"
  "convertReviewsToNumeric (Some (ascii ''1.2M'')) = Finite 1200000"
  "convertReviewsToNumeric (Some (ascii ''457'')) = Finite 457"
  "convertReviewsToNumeric (Some (ascii '''')) = Finite 0"
  "convertReviewsToNumeric None = Finite 0"
proof -
  have n: "Math_floor (js_mul (to_double 12) (Finite 1000)) = Finite 12000"
    "Math_floor (js_mul (to_double (12 / 10)) (Finite 1000000)) = Finite 1200000"
    "to_double 457 = Finite 457"
    by code_simp+
  show "convertReviewsToNumeric (Some (ascii ''12K'')) = Finite 12000"
    using n(1) by (simp add: convertReviewsToNumeric_def parseFloat_def string_eval)
  show "convertReviewsToNumeric (Some (ascii ''1.2M'')) = Finite 1200000"
    using n(2) by (simp add: convertReviewsToNumeric_def parseFloat_def string_eval)
  show "convertReviewsToNumeric (Some (ascii ''457'')) = Finite 457"
    using n(3) by (simp add: convertReviewsToNumeric_def digits_fallback_def parseInt_def string_eval)
  show "convertReviewsToNumeric (Some (ascii '''')) = Finite 0"
    by (simp add: convertReviewsToNumeric_def ascii_simps)
  show "convertReviewsToNumeric None = Finite 0"
    by (simp add: convertReviewsToNumeric_def)
qed

text \<open>
  C4. The documented examples hold, but the scaling is a binary64 multiplication followed by
  \<^verbatim>\<open>Math.floor\<close>: 4.1 is not a binary64 value, the product of its nearest value with
  1000000 rounds to a value just below 4100000, and the floor is 4099999.
\<close>

theorem convertReviewsToNumeric_4_1M:
  "convertReviewsToNumeric (Some (ascii ''4.1M'')) = Finite 4099999"
proof -
  have "Math_floor (js_mul (to_double (41 / 10)) (Finite 1000000)) = Finite 4099999"
    by code_simp
  then show ?thesis
    by (simp add: convertReviewsToNumeric_def parseFloat_def string_eval)
qed

lemma cleanSkills_examples:
  "cleanSkills (Some (ascii ''Skills you'll gain: Python, SQL'')) = Inr (ascii ''Python, SQL'')"
  "cleanSkills (Some (ascii ''  Python  '')) = Inr (ascii ''Python'')"
  "cleanSkills (Some []) = Inr []"
  by (simp_all add: cleanSkills_def skills_label_def string_eval)

text \<open>
  C5. On a string \<open>cleanSkills\<close> strips the label and trims, but on an absent argument it
  throws a TypeError: unlike \<open>extractMetadata\<close> and \<open>convertReviewsToNumeric\<close> it has no
  guard for a missing text.
\<close>

theorem cleanSkills_absent_throws:
  "cleanSkills None = Inl TypeError"
  by (simp add: cleanSkills_def)


subsection \<open>Record builder\<close>

lemma sample_card_extracted: "extractCard ascii_lower sample_card = Inr sample_course"
proof -
  have n: "to_double 457 = Finite 457" by code_simp
  have r: "reviews_text ascii_lower (ratingElems sample_card) = ascii ''(457 Reviews)''"
    by (simp add: reviews_text_def sample_card_def next_elems_def text_of_def ascii_lower_def
        string_eval)
  have rv: "convertReviewsToNumeric (Some (ascii ''(457 Reviews)'')) = Finite 457"
    using n by (simp add: convertReviewsToNumeric_def digits_fallback_def parseInt_def string_eval)
  have sk: "cleanSkills (Some (skills_text (skillsParagraphs sample_card))) = Inr (ascii ''SQL, Python'')"
    by (simp add: cleanSkills_def skills_text_def skills_label_def sample_card_def text_of_def
        string_eval)
  have md: "extractMetadata (Some (metadata_text (metadataParagraphs sample_card)))
              = (ascii ''Beginner'', [], [])"
    by (simp add: extractMetadata_def metadata_text_def sample_card_def text_of_def split_def
        metadata_separator_def part_or_empty_def string_eval)
  have rest: "trim (text_of (titleElems sample_card)) = ascii ''Data Analysis''"
    "trim (text_of (partnerElems sample_card)) = ascii ''A University''"
    "trim (text_of (map fst (ratingElems sample_card))) = ascii ''4.8''"
    "card_url (titleLinks sample_card) = ascii ''https://www.coursera.org/learn/data''"
    "plusElems sample_card = 1" "degreeElems sample_card = []"
    by (simp_all add: sample_card_def text_of_def card_url_def string_eval)
  show ?thesis
    unfolding extractCard_def sk md r rv rest
    by (simp add: sample_course_def ascii_simps)
qed

lemma courseSkills_sample: "courseSkills sample_course = [ascii ''SQL'', ascii ''Python'']"
  by (simp add: courseSkills_def sample_course_def split_def string_eval)

lemma cleanSkills_Some: "cleanSkills (Some t) = Inr (if prefix skills_label t then trim (drop (length skills_label) t) else trim t)"
  by (simp add: cleanSkills_def)

lemma trim_Nil: "trim [] = []"
  by (simp add: trim_def)

lemma cleanSkills_empty: "cleanSkills (Some []) = Inr []"
  by (simp add: cleanSkills_def skills_label_def ascii_simps trim_Nil)

lemma extractMetadata_empty: "extractMetadata (Some []) = ([], [], [])"
  by (simp add: extractMetadata_def)

lemma convertReviewsToNumeric_empty: "convertReviewsToNumeric (Some []) = Finite 0"
  by (simp add: convertReviewsToNumeric_def)

lemma next_elems_Nil: "next_elems [] = []"
  by (simp add: next_elems_def)

lemma extractCard_Inr:
  "extractCard toLowerCase c =
     Inr \<lparr> title = trim (text_of (titleElems c)),
           partner = trim (text_of (partnerElems c)),
           rating = (if trim (text_of (map fst (ratingElems c))) \<noteq> []
                     then trim (text_of (map fst (ratingElems c))) else ascii ''-''),
           reviews = convertReviewsToNumeric (Some (reviews_text toLowerCase (ratingElems c))),
           skills = projr (cleanSkills (Some (skills_text (skillsParagraphs c)))),
           level = fst (extractMetadata (Some (metadata_text (metadataParagraphs c)))),
           course_type = fst (snd (extractMetadata (Some (metadata_text (metadataParagraphs c))))),
           duration = snd (snd (extractMetadata (Some (metadata_text (metadataParagraphs c))))),
           url = card_url (titleLinks c),
           course_plus = (if plusElems c \<noteq> 0 then ascii ''plus'' else ascii ''-''),
           degree = (if degreeElems c \<noteq> [] \<and>
                        js_includes (text_of (degreeElems c)) (ascii ''Build toward a degree'')
                     then ascii ''degree'' else ascii ''-'') \<rparr>"
  by (simp add: extractCard_def cleanSkills_Some Let_def split: prod.splits)

text \<open>
  C8. \<open>extractCard\<close> never throws. Each lookup feeds its own fields only: a card without
  the rating element gives the same course but for the rating \<^verbatim>\<open>-\<close> and the review count
  0, and likewise for every other lookup and its default. The review count is parsed from
  the text of the rating's next sibling when the lowercased text contains \<^verbatim>\<open>reviews\<close>, and
  is 0 otherwise.
\<close>

theorem extractCard_degrades_per_field:
  "\<exists>x. extractCard toLowerCase c = Inr x \<and>
     extractCard toLowerCase (c\<lparr>ratingElems := []\<rparr>) = Inr (x\<lparr>rating := ascii ''-'', reviews := Finite 0\<rparr>) \<and>
     reviews x =
       (if next_elems (ratingElems c) \<noteq> [] \<and>
           js_includes (toLowerCase (text_of (next_elems (ratingElems c)))) (ascii ''reviews'')
        then convertReviewsToNumeric (Some (trim (text_of (next_elems (ratingElems c)))))
        else Finite 0) \<and>
     extractCard toLowerCase (c\<lparr>titleElems := []\<rparr>) = Inr (x\<lparr>title := []\<rparr>) \<and>
     extractCard toLowerCase (c\<lparr>partnerElems := []\<rparr>) = Inr (x\<lparr>partner := []\<rparr>) \<and>
     extractCard toLowerCase (c\<lparr>skillsParagraphs := []\<rparr>) = Inr (x\<lparr>skills := []\<rparr>) \<and>
     extractCard toLowerCase (c\<lparr>metadataParagraphs := []\<rparr>)
       = Inr (x\<lparr>level := [], course_type := [], duration := []\<rparr>) \<and>
     extractCard toLowerCase (c\<lparr>titleLinks := []\<rparr>) = Inr (x\<lparr>url := []\<rparr>) \<and>
     extractCard toLowerCase (c\<lparr>plusElems := 0\<rparr>) = Inr (x\<lparr>course_plus := ascii ''-''\<rparr>) \<and>
     extractCard toLowerCase (c\<lparr>degreeElems := []\<rparr>) = Inr (x\<lparr>degree := ascii ''-''\<rparr>)"
proof -
  have rt: "reviews_text toLowerCase [] = []" by (simp add: reviews_text_def)
  have rv: "reviews_text toLowerCase (ratingElems c) =
      (if next_elems (ratingElems c) \<noteq> [] \<and>
           js_includes (toLowerCase (text_of (next_elems (ratingElems c)))) (ascii ''reviews'')
        then trim (text_of (next_elems (ratingElems c))) else [])"
    by (auto simp: reviews_text_def Let_def next_elems_Nil)
  have e: "text_of [] = []" "skills_text [] = []" "metadata_text [] = []" "card_url [] = []"
    by (simp_all add: text_of_def skills_text_def metadata_text_def card_url_def)
  show ?thesis
    unfolding extractCard_Inr
    by (simp add: rt rv e trim_Nil cleanSkills_empty extractMetadata_empty
        convertReviewsToNumeric_empty)
qed

lemma extractCard_record_invariant:
  assumes "extractCard toLowerCase c = Inr x"
  shows "integer_or_infinity (reviews x) \<and>
         (\<forall>e\<in>set (courseSkills x). trimmed e) \<and>
         (url x = [] \<or> prefix (ascii ''https://www.coursera.org'') (url x))"
proof -
  have x: "reviews x = convertReviewsToNumeric (Some (reviews_text toLowerCase (ratingElems c)))"
    "url x = card_url (titleLinks c)"
    using assms unfolding extractCard_Inr by auto
  have "\<forall>e\<in>set (courseSkills x). trimmed e"
    using trim_ends by (auto simp: courseSkills_def trimmed_def)
  moreover have "url x = [] \<or> prefix (ascii ''https://www.coursera.org'') (url x)"
    by (simp add: x card_url_def split: list.splits option.splits)
  ultimately show ?thesis
    by (simp add: x integer_or_infinity_convertReviewsToNumeric)
qed

lemma extractCourseInfo_map:
  "\<exists>courses. extractCourseInfo toLowerCase cards = Inr courses \<and>
             map Inr courses = map (extractCard toLowerCase) cards"
proof (induction cards)
  case Nil
  then show ?case by simp
next
  case (Cons c cards)
  then obtain courses where
    "extractCourseInfo toLowerCase cards = Inr courses"
    "map Inr courses = map (extractCard toLowerCase) cards"
    by blast
  then show ?case by (simp add: extractCard_Inr)
qed

text \<open>
  C9 (as the code has it). In every course of an extraction pass the review count is a
  non-negative integer or \<open>+Infinity\<close>, every entry of the skill list has no white space
  at either end (it may be empty), and the url is empty or starts with the site's origin.
\<close>

theorem extractCourseInfo_invariant:
  assumes "extractCourseInfo toLowerCase cards = Inr courses" and "x \<in> set courses"
  shows "integer_or_infinity (reviews x) \<and>
         (\<forall>e\<in>set (courseSkills x). trimmed e) \<and>
         (url x = [] \<or> prefix (ascii ''https://www.coursera.org'') (url x))"
proof -
  from extractCourseInfo_map[of toLowerCase cards] assms(1)
  have "map Inr courses = map (extractCard toLowerCase) cards" by auto
  then have "Inr x \<in> set (map (extractCard toLowerCase) cards)"
    using assms(2) by (metis imageI set_map)
  then obtain c where "extractCard toLowerCase c = Inr x" by auto
  then show ?thesis by (rule extractCard_record_invariant)
qed

theorem extractCourseInfo_invariant_witness:
  "extractCourseInfo ascii_lower [sample_card] = Inr [sample_course] \<and>
   sample_course \<in> set [sample_course] \<and>
   integer_or_infinity (reviews sample_course) \<and>
   courseSkills sample_course = [ascii ''SQL'', ascii ''Python''] \<and>
   trimmed (ascii ''SQL'') \<and> trimmed (ascii ''Python'') \<and>
   prefix (ascii ''https://www.coursera.org'') (url sample_course)"
proof -
  have e: "extractCourseInfo ascii_lower [sample_card] = Inr [sample_course]"
    by (simp add: sample_card_extracted)
  have m: "sample_course \<in> set [sample_course]" by simp
  have "integer_or_infinity (reviews sample_course) \<and>
        (\<forall>e\<in>set (courseSkills sample_course). trimmed e) \<and>
        (url sample_course = [] \<or> prefix (ascii ''https://www.coursera.org'') (url sample_course))"
    by (rule extractCourseInfo_invariant[OF e m])
  moreover have "url sample_course \<noteq> []"
    by (simp add: sample_course_def ascii_simps)
  ultimately show ?thesis
    using e by (simp add: courseSkills_sample)
qed

text \<open>
  C9 as stated fails: two commas in a row in the skills text give an empty entry.
\<close>

theorem extractCard_empty_skill_counterexample:
  "map_sum id courseSkills (extractCard ascii_lower comma_card) = Inr [ascii ''Python'', [], ascii ''SQL'']"
proof -
  have "skills_text (skillsParagraphs comma_card) = ascii ''Python,, SQL''"
    by (simp add: comma_card_def bare_card_def skills_text_def text_of_def string_eval)
  then have "projr (cleanSkills (Some (skills_text (skillsParagraphs comma_card)))) = ascii ''Python,, SQL''"
    by (simp add: cleanSkills_Some skills_label_def string_eval)
  then show ?thesis
    unfolding extractCard_Inr by (simp add: courseSkills_def split_def string_eval)
qed


subsection \<open>Schema unifier and exporter\<close>

lemma set_foldl_set_add: "set (foldl set_add s xs) = set s \<union> set xs"
  by (induction xs arbitrary: s) (auto simp: set_add_def)

lemma distinct_foldl_set_add: "distinct s \<Longrightarrow> distinct (foldl set_add s xs)"
  by (induction xs arbitrary: s) (auto simp: set_add_def)

lemma set_foldl_courseSkills:
  "set (foldl (\<lambda>s c. foldl set_add s (courseSkills c)) s0 courses)
     = set s0 \<union> (\<Union>c\<in>set courses. set (courseSkills c))"
  by (induction courses arbitrary: s0) (auto simp: set_foldl_set_add)

lemma distinct_foldl_courseSkills:
  "distinct s0 \<Longrightarrow> distinct (foldl (\<lambda>s c. foldl set_add s (courseSkills c)) s0 courses)"
  by (induction courses arbitrary: s0) (auto simp: distinct_foldl_set_add)

lemma set_uniqueSkillsArray:
  "set (uniqueSkillsArray courses) = (\<Union>c\<in>set courses. set (courseSkills c))"
  by (simp add: uniqueSkillsArray_def uniqueSkills_def set_foldl_courseSkills)

lemma sorted_uniqueSkillsArray: "sorted (uniqueSkillsArray courses)"
  by (simp add: uniqueSkillsArray_def)

lemma distinct_uniqueSkillsArray: "distinct (uniqueSkillsArray courses)"
  by (simp add: uniqueSkillsArray_def uniqueSkills_def distinct_foldl_courseSkills)

lemma foldl_set_prop:
  "foldl (\<lambda>r s. set_prop r s (Str (f s))) obj vocabulary k
     = (if k \<in> set vocabulary \<and> k \<noteq> ascii ''__proto__'' then Some (Str (f k)) else obj k)"
  by (induction vocabulary arbitrary: obj) (auto simp: set_prop_def)

lemma export_record_skills: "export_record vocabulary c (ascii ''skills'') = None"
  by (simp add: export_record_def)

lemma export_record_column:
  "k \<noteq> ascii ''skills'' \<Longrightarrow>
   export_record vocabulary c k
     = (if k \<in> set vocabulary \<and> k \<noteq> ascii ''__proto__''
        then Some (Str (if k \<in> set (courseSkills c) then k else []))
        else spread c k)"
  by (simp add: export_record_def foldl_set_prop)

lemma fixed_columns_not_special:
  "k \<in> set fixed_columns \<Longrightarrow> k \<noteq> ascii ''skills'' \<and> k \<noteq> ascii ''__proto__''"
  by (auto simp: fixed_columns_def ascii_simps)

text \<open>
  C7. For an empty course list \<open>saveToCsv\<close> logs that no courses were found, hands
  nothing to the writer, and returns normally.
\<close>

theorem saveToCsv_empty:
  "saveToCsv [] outputFile vocabulary = \<lparr> console = [No_courses_found], written = None \<rparr>"
  by (simp add: saveToCsv_def)

text \<open>
  C10. A vocabulary entry equal to a fixed column name overwrites that column in every
  export record with the skill's name or the empty string; with a vocabulary disjoint
  from the fixed column names every fixed column keeps the value of the course.
\<close>

theorem export_record_fixed_columns:
  assumes "k \<in> set fixed_columns"
  shows "(k \<in> set vocabulary \<longrightarrow>
            export_record vocabulary c k = Some (Str (if k \<in> set (courseSkills c) then k else []))) \<and>
         (set vocabulary \<inter> set fixed_columns = {} \<longrightarrow>
            export_record vocabulary c k = spread c k)"
  using assms fixed_columns_not_special[OF assms]
  by (auto simp: export_record_column)

theorem export_record_fixed_columns_witness:
  "ascii ''title'' \<in> set fixed_columns \<and>
   ascii ''title'' \<in> set [ascii ''Python'', ascii ''title''] \<and>
   export_record [ascii ''Python'', ascii ''title''] title_named_course (ascii ''title'')
     = Some (Str (ascii ''title'')) \<and>
   set [ascii ''Python''] \<inter> set fixed_columns = {} \<and>
   export_record [ascii ''Python''] title_named_course (ascii ''title'')
     = Some (Str (ascii ''Data Analysis''))"
proof -
  have k: "ascii ''title'' \<in> set fixed_columns"
    by (simp add: fixed_columns_def)
  have v: "ascii ''title'' \<in> set [ascii ''Python'', ascii ''title'']" by simp
  have d: "set [ascii ''Python''] \<inter> set fixed_columns = {}"
    by (simp add: fixed_columns_def ascii_simps)
  have s: "courseSkills title_named_course = [ascii ''title'', ascii ''Python'']"
    by (simp add: courseSkills_def title_named_course_def sample_course_def split_def string_eval)
  have t: "spread title_named_course (ascii ''title'') = Some (Str (ascii ''Data Analysis''))"
    by (simp add: spread_def title_named_course_def sample_course_def ascii_simps)
  have a: "export_record [ascii ''Python'', ascii ''title''] title_named_course (ascii ''title'')
             = Some (Str (if ascii ''title'' \<in> set (courseSkills title_named_course)
                          then ascii ''title'' else []))"
    using export_record_fixed_columns[OF k, of "[ascii ''Python'', ascii ''title'']" title_named_course] v
    by blast
  have b: "export_record [ascii ''Python''] title_named_course (ascii ''title'')
             = spread title_named_course (ascii ''title'')"
    using export_record_fixed_columns[OF k, of "[ascii ''Python'']" title_named_course] d
    by blast
  show ?thesis
    using k d by (simp add: a b s t)
qed

lemma two_courses_skills:
  "courseSkills (two_courses ! 0) = [ascii ''SQL'', ascii ''Python'']"
  "courseSkills (two_courses ! 1) = [ascii ''Python'']"
  by (simp_all add: two_courses_def courseSkills_def sample_course_def split_def string_eval)

lemma two_courses_vocabulary: "uniqueSkillsArray two_courses = [ascii ''Python'', ascii ''SQL'']"
proof -
  have "uniqueSkills two_courses = [ascii ''SQL'', ascii ''Python'']"
    using two_courses_skills
    by (simp add: uniqueSkills_def two_courses_def set_add_def ascii_simps)
  then show ?thesis
    by (simp add: uniqueSkillsArray_def ascii_simps)
qed

text \<open>
  C1 (as the code has it). For a non-empty course list the exporter hands the writer the
  fixed columns followed by the vocabulary, which is the sorted, duplicate-free union of
  the skill lists, and one record per course. No record has a \<^verbatim>\<open>skills\<close> property, and
  every vocabulary column other than \<^verbatim>\<open>skills\<close> and \<^verbatim>\<open>__proto__\<close> holds the skill's
  own name when the course has the skill and the empty string otherwise.
\<close>

theorem export_courses_wide_table:
  assumes "courses \<noteq> []"
  shows "\<exists>f. written (export_courses courses) = Some f \<and>
           header f = fixed_columns @ uniqueSkillsArray courses \<and>
           sorted (uniqueSkillsArray courses) \<and> distinct (uniqueSkillsArray courses) \<and>
           set (uniqueSkillsArray courses) = (\<Union>c\<in>set courses. set (courseSkills c)) \<and>
           length (records f) = length courses \<and>
           (\<forall>i<length courses.
              (records f ! i) (ascii ''skills'') = None \<and>
              (\<forall>s\<in>set (uniqueSkillsArray courses).
                 s \<noteq> ascii ''skills'' \<and> s \<noteq> ascii ''__proto__'' \<longrightarrow>
                 (records f ! i) s
                   = Some (Str (if s \<in> set (courseSkills (courses ! i)) then s else []))))"
proof -
  define f where "f = \<lparr> path = ascii ''coursera_courses.csv'',
                        header = fixed_columns @ uniqueSkillsArray courses,
                        records = map (export_record (uniqueSkillsArray courses)) courses \<rparr>"
  have w: "written (export_courses courses) = Some f"
    using assms by (simp add: export_courses_def saveToCsv_def f_def)
  have rows: "\<forall>i<length courses.
              (records f ! i) (ascii ''skills'') = None \<and>
              (\<forall>s\<in>set (uniqueSkillsArray courses).
                 s \<noteq> ascii ''skills'' \<and> s \<noteq> ascii ''__proto__'' \<longrightarrow>
                 (records f ! i) s
                   = Some (Str (if s \<in> set (courseSkills (courses ! i)) then s else [])))"
    by (simp add: f_def export_record_skills export_record_column)
  have "header f = fixed_columns @ uniqueSkillsArray courses"
    "length (records f) = length courses"
    by (simp_all add: f_def)
  with w rows show ?thesis
    using sorted_uniqueSkillsArray[of courses] distinct_uniqueSkillsArray[of courses]
      set_uniqueSkillsArray[of courses]
    by blast
qed

theorem export_courses_wide_table_witness:
  "two_courses \<noteq> [] \<and>
   header_of (export_courses two_courses) = fixed_columns @ [ascii ''Python'', ascii ''SQL''] \<and>
   column (ascii ''Python'') (export_courses two_courses)
     = [Some (Str (ascii ''Python'')), Some (Str (ascii ''Python''))] \<and>
   column (ascii ''SQL'') (export_courses two_courses)
     = [Some (Str (ascii ''SQL'')), Some (Str [])] \<and>
   column (ascii ''skills'') (export_courses two_courses) = [None, None]"
proof -
  have ne: "two_courses \<noteq> []" by (simp add: two_courses_def)
  from export_courses_wide_table[OF ne] obtain f where
    w: "written (export_courses two_courses) = Some f" and
    h: "header f = fixed_columns @ uniqueSkillsArray two_courses" and
    l: "length (records f) = length two_courses" and
    r: "\<forall>i<length two_courses.
          (records f ! i) (ascii ''skills'') = None \<and>
          (\<forall>s\<in>set (uniqueSkillsArray two_courses).
             s \<noteq> ascii ''skills'' \<and> s \<noteq> ascii ''__proto__'' \<longrightarrow>
             (records f ! i) s
               = Some (Str (if s \<in> set (courseSkills (two_courses ! i)) then s else [])))"
    by blast
  have len: "length two_courses = 2" by (simp add: two_courses_def)
  from l len obtain r0 r1 where rs: "records f = [r0, r1]"
    by (cases "records f"; cases "tl (records f)") auto
  have r0: "r0 (ascii ''skills'') = None"
    "r0 (ascii ''Python'') = Some (Str (ascii ''Python''))"
    "r0 (ascii ''SQL'') = Some (Str (ascii ''SQL''))"
    using r[rule_format, of 0] two_courses_skills
    by (simp_all add: len rs two_courses_vocabulary ascii_simps)
  have r1: "r1 (ascii ''skills'') = None"
    "r1 (ascii ''Python'') = Some (Str (ascii ''Python''))"
    "r1 (ascii ''SQL'') = Some (Str [])"
    using r[rule_format, of 1] two_courses_skills
    by (simp_all add: len rs two_courses_vocabulary ascii_simps)
  show ?thesis
    using ne by (simp add: header_of_def column_def w h rs r0 r1 two_courses_vocabulary)
qed

text \<open>
  C1 as stated fails on two inputs: for the empty course list nothing is emitted, and a
  skill named \<^verbatim>\<open>skills\<close> gets a header column whose cell is deleted from every record.
\<close>

theorem export_courses_counterexample:
  "written (export_courses []) = None \<and>
   courseSkills skills_named_course = [ascii ''skills''] \<and>
   header_of (export_courses [skills_named_course]) = fixed_columns @ [ascii ''skills''] \<and>
   column (ascii ''skills'') (export_courses [skills_named_course]) = [None]"
proof -
  have s: "courseSkills skills_named_course = [ascii ''skills'']"
    by (simp add: courseSkills_def skills_named_course_def sample_course_def split_def string_eval)
  then have v: "uniqueSkillsArray [skills_named_course] = [ascii ''skills'']"
    by (simp add: uniqueSkillsArray_def uniqueSkills_def set_add_def)
  show ?thesis
    by (simp add: s v export_courses_def saveToCsv_def header_of_def column_def
        export_record_skills)
qed


subsection \<open>Content loader\<close>
lemma scroll_loop_converges:
  assumes "height (Suc (k + n)) = height (k + n)"
    and "\<forall>j<n. height (Suc (k + j)) \<noteq> height (k + j)"
  shows "scroll_loop height (Suc k) (height k) trace
           = Some (k + n + 2, trace @ replicate n LOADING @ [CONVERGED])"
  using assms
proof (induction n arbitrary: k trace)
  case 0
  then show ?case by (subst scroll_loop.simps) simp
next
  case (Suc n)
  have ne: "height (Suc k) \<noteq> height k"
    using Suc.prems(2) by (auto dest: spec[of _ 0])
  have stop: "height (Suc (Suc k + n)) = height (Suc k + n)"
    using Suc.prems(1) by simp
  have before: "\<forall>j<n. height (Suc (Suc k + j)) \<noteq> height (Suc k + j)"
  proof (intro allI impI)
    fix j assume "j < n"
    then have "Suc j < Suc n" by simp
    with Suc.prems(2) have "height (Suc (k + Suc j)) \<noteq> height (k + Suc j)" by blast
    then show "height (Suc (Suc k + j)) \<noteq> height (Suc k + j)" by simp
  qed
  have "scroll_loop height (Suc (Suc k)) (height (Suc k)) (trace @ [LOADING])
          = Some (Suc k + n + 2, (trace @ [LOADING]) @ replicate n LOADING @ [CONVERGED])"
    by (rule Suc.IH[OF stop before])
  then show ?case
    using ne by (subst scroll_loop.simps) (simp add: replicate_app_Cons_same)
qed

lemma scroll_loop_some_stabilizes:
  assumes "scroll_loop height k' lastHeight trace = Some r"
  shows "\<forall>k. k' = Suc k \<and> lastHeight = height k \<longrightarrow> (\<exists>j. height (Suc (k + j)) = height (k + j))"
  using assms
proof (induction rule: scroll_loop.raw_induct[rotated 1, consumes 1])
  case (1 loop height k' lastHeight trace r)
  show ?case
  proof (intro allI impI)
    fix k assume a: "k' = Suc k \<and> lastHeight = height k"
    show "\<exists>j. height (Suc (k + j)) = height (k + j)"
    proof (cases "height (Suc k) = height k")
      case True
      then have "height (Suc (k + 0)) = height (k + 0)" by simp
      then show ?thesis by blast
    next
      case False
      with 1(2) a have "loop height (Suc (Suc k)) (height (Suc k)) (trace @ [LOADING]) = Some r"
        by simp
      from 1(1)[OF this] obtain j where "height (Suc (Suc k + j)) = height (Suc k + j)"
        by blast
      then have "height (Suc (k + Suc j)) = height (k + Suc j)" by simp
      then show ?thesis by blast
    qed
  qed
qed

lemma load_page_result:
  "load_page height =
     (if \<exists>n. height (Suc n) = height n
      then Some ((LEAST n. height (Suc n) = height n) + 2,
                 replicate (LEAST n. height (Suc n) = height n) LOADING @ [CONVERGED])
      else None)"
proof (cases "\<exists>n. height (Suc n) = height n")
  case True
  define n where "n = (LEAST n. height (Suc n) = height n)"
  have "height (Suc n) = height n"
    unfolding n_def using True by (rule LeastI_ex)
  then have stop: "height (Suc (0 + n)) = height (0 + n)" by simp
  have before: "\<forall>j<n. height (Suc (0 + j)) \<noteq> height (0 + j)"
    unfolding n_def by (auto dest: not_less_Least)
  show ?thesis
    using scroll_loop_converges[OF stop before, of "[]"] True
    by (simp add: load_page_def n_def)
next
  case False
  have "load_page height = None"
  proof (cases "load_page height")
    case (Some r)
    then have "scroll_loop height (Suc 0) (height 0) [] = Some r" by (simp add: load_page_def)
    from scroll_loop_some_stabilizes[OF this] False show ?thesis by auto
  qed simp
  with False show ?thesis by simp
qed


text \<open>
  C3 (as the code has it). The loop has no iteration bound, no timeout and no
  "incomplete load" outcome. It leaves at the first measurement that equals the one
  before, after as many rounds as that takes, and on a page where no two consecutive
  measurements are equal it never returns.
\<close>

theorem load_page_ends_iff_stabilizes:
  "load_page height =
     (if \<exists>n. height (Suc n) = height n
      then Some ((LEAST n. height (Suc n) = height n) + 2,
                 replicate (LEAST n. height (Suc n) = height n) LOADING @ [CONVERGED])
      else None)"
  by (rule load_page_result)

text \<open>
  C3 as stated fails: on the page that grows at every measurement the loop does not stop
  at any bound and reports nothing.
\<close>

theorem load_page_growing_counterexample:
  "load_page growing_page = None"
  by (simp add: load_page_result growing_page_def)

text \<open>
  C6. On every page whose first three measurements are 100, 200, 200 the loop takes
  exactly three measurements: the comparison of the second with the first goes round
  again, the comparison of the third with the second is the \<^verbatim>\<open>break\<close>, and
  \<open>CONVERGED\<close> stands once in the trace, as its last entry.
\<close>

theorem load_page_100_200_200:
  assumes "height 0 = 100" and "height 1 = 200" and "height 2 = 200"
  shows "load_page height = Some (3, [LOADING, CONVERGED]) \<and>
         count_list [LOADING, CONVERGED] CONVERGED = 1"
proof -
  have "scroll_loop height 2 200 [LOADING] = Some (3, [LOADING, CONVERGED])"
    using assms by (subst scroll_loop.simps) simp
  then have "scroll_loop height 1 100 [] = Some (3, [LOADING, CONVERGED])"
    using assms by (subst scroll_loop.simps) (simp add: numeral_2_eq_2)
  then show ?thesis
    using assms by (simp add: load_page_def)
qed

theorem load_page_100_200_200_witness:
  "load_page (extents_of [100, 200, 200]) = Some (3, [LOADING, CONVERGED]) \<and>
   count_list [LOADING, CONVERGED] CONVERGED = 1"
  by (rule load_page_100_200_200) (simp_all add: extents_of_def)

end
